theory Spec2Isabelle
  imports Complex_Main
begin

section \<open>utils/throttle.ts\<close>

text \<open>
  \<^verbatim>\<open>throttle(func, wait, options)\<close> builds a closure over three variables: \<^verbatim>\<open>timeout\<close>
  (the handle of the pending \<^verbatim>\<open>setTimeout\<close>, or null), \<^verbatim>\<open>previous\<close> (the time of the last
  invocation, 0 when there was none) and \<^verbatim>\<open>result\<close>. Times are the integer milliseconds
  of \<^verbatim>\<open>Date.now()\<close>. The wrapped function is opaque, so the model records every
  \<^verbatim>\<open>func.apply(this, args)\<close> in the log \<open>invoked\<close> (oldest first); \<^verbatim>\<open>result\<close> is the value
  of the last of them and is not modelled. A pending timer is kept with the arguments
  its callback closed over and the time it is due (\<^verbatim>\<open>now + remaining\<close>); timer handles are
  taken to be non-zero, so that \<^verbatim>\<open>!timeout\<close> is \<^verbatim>\<open>timeout === null\<close>.
\<close>

record throttle_options =
  opt_leading :: "bool option"
  opt_trailing :: "bool option"

record 'a throttle_vars =
  timeout :: "('a \<times> int) option"
  previous :: int
  invoked :: "'a list"

text \<open>\<^verbatim>\<open>const { leading = true, trailing = true } = options;\<close>\<close>

definition leading_of :: "throttle_options \<Rightarrow> bool" where
  "leading_of options = (case opt_leading options of None \<Rightarrow> True | Some b \<Rightarrow> b)"

definition trailing_of :: "throttle_options \<Rightarrow> bool" where
  "trailing_of options = (case opt_trailing options of None \<Rightarrow> True | Some b \<Rightarrow> b)"

text \<open>The closure variables of a new wrapper: \<^verbatim>\<open>timeout = null\<close>, \<^verbatim>\<open>previous = 0\<close>.\<close>

definition throttle :: "'a throttle_vars" where
  "throttle = \<lparr>timeout = None, previous = 0, invoked = []\<rparr>"

text \<open>One call \<^verbatim>\<open>throttled(...args)\<close> at time \<open>now\<close>.\<close>

definition throttled ::
  "int \<Rightarrow> throttle_options \<Rightarrow> int \<Rightarrow> 'a \<Rightarrow> 'a throttle_vars \<Rightarrow> 'a throttle_vars" where
  "throttled wait options now args v =
     (let v1 = (if previous v = 0 \<and> \<not> leading_of options then v\<lparr>previous := now\<rparr> else v);
          remaining = wait - (now - previous v1)
      in if remaining \<le> 0 \<or> remaining > wait
         then v1\<lparr>timeout := None, previous := now, invoked := invoked v1 @ [args]\<rparr>
         else if timeout v1 = None \<and> trailing_of options
         then v1\<lparr>timeout := Some (args, now + remaining)\<rparr>
         else v1)"

text \<open>
  The callback handed to \<^verbatim>\<open>setTimeout\<close>, run by the environment at time \<open>now\<close>. It can
  only run while its timer is pending; it calls \<^verbatim>\<open>func\<close> with the \<^verbatim>\<open>args\<close> of the call
  that created it.
\<close>

definition timeout_callback :: "throttle_options \<Rightarrow> int \<Rightarrow> 'a throttle_vars \<Rightarrow> 'a throttle_vars" where
  "timeout_callback options now v =
     (case timeout v of
        None \<Rightarrow> v
      | Some (args, due) \<Rightarrow>
          v\<lparr>previous := (if \<not> leading_of options then 0 else now),
            timeout := None,
            invoked := invoked v @ [args]\<rparr>)"

definition cancel :: "'a throttle_vars \<Rightarrow> 'a throttle_vars" where
  "cancel v = v\<lparr>timeout := None, previous := 0\<rparr>"

text \<open>
  What happens to a wrapper: a call with arguments at a time, or the pending timer
  firing at a time.
\<close>

datatype 'a throttle_event = Call int 'a | Fire int

fun throttle_step :: "int \<Rightarrow> throttle_options \<Rightarrow> 'a throttle_vars \<Rightarrow> 'a throttle_event \<Rightarrow> 'a throttle_vars" where
  "throttle_step wait options v (Call now args) = throttled wait options now args v"
| "throttle_step wait options v (Fire now) = timeout_callback options now v"

definition throttle_run ::
  "int \<Rightarrow> throttle_options \<Rightarrow> 'a throttle_event list \<Rightarrow> 'a throttle_vars \<Rightarrow> 'a throttle_vars" where
  "throttle_run wait options evs v = foldl (throttle_step wait options) v evs"

section \<open>useTimer.ts\<close>

text \<open>
  The hook keeps the React state \<^verbatim>\<open>elapsedInMs\<close>, three refs (\<^verbatim>\<open>startTime\<close>,
  \<^verbatim>\<open>pausedTime\<close>, \<^verbatim>\<open>intervalId\<close>) and a throttled \<^verbatim>\<open>onFinish\<close>. Times are integer
  milliseconds. Three things of the render cycle are part of the model.

  \<^item> The callbacks \<^verbatim>\<open>play\<close>, \<^verbatim>\<open>pause\<close> and \<^verbatim>\<open>getSnapshot\<close> close over the \<^verbatim>\<open>elapsedInMs\<close>
    of the render that created them, and \<^verbatim>\<open>setElapsedInMs\<close> only queues a value for the
    next render: \<open>elapsedInMs\<close> is the value of the last render and \<open>queuedElapsedInMs\<close>
    the value \<^verbatim>\<open>setElapsedInMs\<close> was last called with since then.
  \<^item> \<^verbatim>\<open>throttledOnFinish\<close> is memoised on the identity of \<^verbatim>\<open>onFinish\<close>. When the caller
    passes no \<^verbatim>\<open>onFinish\<close>, the default \<^verbatim>\<open>() => null\<close> is a new function on every render, so
    every render builds a new wrapper; when the caller passes one, a new wrapper is
    built on the renders in which the caller passes another function. A new wrapper
    makes React run the cleanup of the effect on \<^verbatim>\<open>[throttledOnFinish]\<close>, which calls
    \<^verbatim>\<open>clearInterval(intervalId.current)\<close> without setting the ref to null, and run the
    finish effect again, which has the wrapper among its dependencies.
  \<^item> So the ref \<^verbatim>\<open>intervalId\<close> and the interval itself are two things: \<open>intervalId\<close> is
    the ref, \<open>intervalLive\<close> says whether the interval of that handle still fires.

  \<^verbatim>\<open>initialTimeInMs\<close>, \<^verbatim>\<open>mode\<close> and \<^verbatim>\<open>needHour\<close> are fixed during a run. The log
  \<open>invoked\<close> of the wrapper counts the invocations of the caller's \<^verbatim>\<open>onFinish\<close> and is
  carried over to a new wrapper.
\<close>

datatype mode = Stopwatch | Timer

record timer_props =
  prop_initialTimeInMs :: "int option"
  prop_onFinish :: "unit option"
  prop_mode :: "mode option"
  prop_needHour :: bool

record timer_config =
  initialTimeInMs :: int
  onFinish :: "unit option"
  mode :: mode
  needHour :: bool

text \<open>
  The parameter defaults: \<^verbatim>\<open>initialTimeInMs = 0\<close>, \<^verbatim>\<open>mode = 'stopwatch'\<close>. \<open>onFinish\<close> is
  \<open>Some ()\<close> for a function passed by the caller and \<open>None\<close> when the default
  \<^verbatim>\<open>() => null\<close> is taken, anew on every render.
\<close>

definition useTimer_config :: "timer_props \<Rightarrow> timer_config" where
  "useTimer_config props =
     \<lparr>initialTimeInMs = (case prop_initialTimeInMs props of None \<Rightarrow> 0 | Some t \<Rightarrow> t),
      onFinish = prop_onFinish props,
      mode = (case prop_mode props of None \<Rightarrow> Stopwatch | Some m \<Rightarrow> m),
      needHour = prop_needHour props\<rparr>"

record timer_state =
  elapsedInMs :: int
  queuedElapsedInMs :: "int option"
  startTime :: "int option"
  pausedTime :: "int option"
  intervalId :: "unit option"
  intervalLive :: bool
  onFinishVars :: "unit throttle_vars"

definition direction :: "timer_config \<Rightarrow> int" where
  "direction cfg = (if mode cfg = Timer then - 1 else 1)"

text \<open>\<^verbatim>\<open>!ref.current\<close> for a ref of type \<^verbatim>\<open>number | null\<close>: true for null and for 0.\<close>

definition falsy :: "int option \<Rightarrow> bool" where
  "falsy r = (case r of None \<Rightarrow> True | Some n \<Rightarrow> n = 0)"

text \<open>A ref used in arithmetic: null counts as 0.\<close>

definition to_number :: "int option \<Rightarrow> int" where
  "to_number r = (case r of None \<Rightarrow> 0 | Some n \<Rightarrow> n)"

text \<open>\<^verbatim>\<open>throttle(onFinish, 100, { trailing: false })\<close>\<close>

definition onFinish_wait :: int where
  "onFinish_wait = 100"

definition onFinish_options :: throttle_options where
  "onFinish_options = \<lparr>opt_leading = None, opt_trailing = Some False\<rparr>"

definition throttledOnFinish :: "int \<Rightarrow> unit throttle_vars \<Rightarrow> unit throttle_vars" where
  "throttledOnFinish now v = throttled onFinish_wait onFinish_options now () v"

definition setElapsedInMs :: "int \<Rightarrow> timer_state \<Rightarrow> timer_state" where
  "setElapsedInMs v st = st\<lparr>queuedElapsedInMs := Some v\<rparr>"

definition getSnapshot :: "timer_config \<Rightarrow> timer_state \<Rightarrow> int" where
  "getSnapshot cfg st = \<bar>initialTimeInMs cfg + elapsedInMs st * direction cfg\<bar>"

text \<open>The function given to \<^verbatim>\<open>setInterval\<close>, run at time \<open>now\<close>.\<close>

definition intervalCallback :: "int \<Rightarrow> timer_state \<Rightarrow> timer_state" where
  "intervalCallback now st =
     (if falsy (pausedTime st)
      then setElapsedInMs (now - to_number (startTime st)) st
      else (let elapsedSincePaused = now - to_number (pausedTime st)
            in st\<lparr>startTime := Some (to_number (startTime st) + elapsedSincePaused),
                  pausedTime := None\<rparr>))"

definition play :: "timer_config \<Rightarrow> int \<Rightarrow> timer_state \<Rightarrow> timer_state" where
  "play cfg now st =
     (if intervalId st \<noteq> None then st
      else if elapsedInMs st = initialTimeInMs cfg \<and> mode cfg = Timer then st
      else (let st1 = (if falsy (startTime st) then st\<lparr>startTime := Some now\<rparr> else st)
            in st1\<lparr>intervalId := Some (), intervalLive := True\<rparr>))"

definition resetState :: "timer_state \<Rightarrow> timer_state" where
  "resetState st = (setElapsedInMs 0 st)\<lparr>startTime := None, pausedTime := None\<rparr>"

text \<open>\<^verbatim>\<open>clearInterval(intervalId.current); intervalId.current = null\<close>, when the ref is set.\<close>

definition removeInterval :: "timer_state \<Rightarrow> timer_state" where
  "removeInterval st =
     (if intervalId st \<noteq> None then st\<lparr>intervalLive := False, intervalId := None\<rparr> else st)"

text \<open>
  A render with a new \<^verbatim>\<open>onFinish\<close>: \<^verbatim>\<open>useMemo\<close> builds a new wrapper, and the cleanup of
  the effect on \<^verbatim>\<open>[throttledOnFinish]\<close> runs: it clears the interval when the ref is set,
  leaving the ref as it is, and cancels the old wrapper, which is then dropped.
\<close>

definition cleanupEffect :: "timer_state \<Rightarrow> timer_state" where
  "cleanupEffect st =
     (let st1 = (if intervalId st \<noteq> None then st\<lparr>intervalLive := False\<rparr> else st)
      in st1\<lparr>onFinishVars := throttle\<lparr>invoked := invoked (cancel (onFinishVars st1))\<rparr>\<rparr>)"

text \<open>
  The effect with dependencies \<^verbatim>\<open>[elapsedInMs, initialTimeInMs, mode, removeInterval,
  throttledOnFinish]\<close>, run at time \<open>now\<close>.
\<close>

definition finishEffect :: "timer_config \<Rightarrow> int \<Rightarrow> timer_state \<Rightarrow> timer_state" where
  "finishEffect cfg now st =
     (if mode cfg = Timer \<and> elapsedInMs st \<ge> initialTimeInMs cfg
      then (let st1 = removeInterval st;
                st2 = setElapsedInMs (initialTimeInMs cfg) st1
            in st2\<lparr>onFinishVars := throttledOnFinish now (onFinishVars st2)\<rparr>)
      else st)"

text \<open>\<^verbatim>\<open>pause\<close> returns the snapshot; the model returns it beside the new state.\<close>

definition pause :: "timer_config \<Rightarrow> int \<Rightarrow> timer_state \<Rightarrow> timer_state \<times> int" where
  "pause cfg now st =
     (let st1 = removeInterval st;
          st2 = (if falsy (pausedTime st1) \<and> elapsedInMs st1 > 0
                 then st1\<lparr>pausedTime := Some now\<rparr> else st1)
      in (st2, getSnapshot cfg st2))"

definition reset :: "timer_state \<Rightarrow> timer_state" where
  "reset st = resetState (removeInterval st)"

text \<open>
  The component renders at time \<open>now\<close>. \<open>newOnFinish\<close> says that the render comes from
  the caller, with a function \<^verbatim>\<open>onFinish\<close> other than the one of the last render (or
  with none, the default being built anew); otherwise the render is React committing
  the queued state, and there is none when the queued value is the rendered one. In a
  render the queued value (\<open>committed\<close>) becomes the rendered one; \<^verbatim>\<open>onFinish\<close> is new when
  \<open>newOnFinish\<close> holds or no \<^verbatim>\<open>onFinish\<close> was passed; then the cleanup runs, and the finish
  effect runs, one of its dependencies \<^verbatim>\<open>elapsedInMs\<close> and \<^verbatim>\<open>throttledOnFinish\<close> having
  changed.
\<close>

definition committed :: "timer_state \<Rightarrow> int" where
  "committed st = (case queuedElapsedInMs st of None \<Rightarrow> elapsedInMs st | Some v \<Rightarrow> v)"

definition rerender :: "timer_config \<Rightarrow> int \<Rightarrow> bool \<Rightarrow> timer_state \<Rightarrow> timer_state" where
  "rerender cfg now newOnFinish st =
     (if committed st = elapsedInMs st \<and> \<not> newOnFinish then st\<lparr>queuedElapsedInMs := None\<rparr>
      else (let st1 = st\<lparr>elapsedInMs := committed st, queuedElapsedInMs := None\<rparr>;
                st2 = (if newOnFinish \<or> onFinish cfg = None then cleanupEffect st1 else st1)
            in finishEffect cfg now st2))"

text \<open>
  The first render: \<^verbatim>\<open>useState(0)\<close>, the refs null, a new throttled \<^verbatim>\<open>onFinish\<close>; then
  the effects of the mount in their order, \<^verbatim>\<open>reset()\<close> and the finish effect.
\<close>

definition initial_state :: timer_state where
  "initial_state =
     \<lparr>elapsedInMs = 0, queuedElapsedInMs = None, startTime = None, pausedTime = None,
      intervalId = None, intervalLive = False, onFinishVars = throttle\<rparr>"

definition mount :: "timer_config \<Rightarrow> int \<Rightarrow> timer_state" where
  "mount cfg now = finishEffect cfg now (reset initial_state)"

text \<open>
  What can happen to a mounted engine: a call of \<^verbatim>\<open>play\<close>, \<^verbatim>\<open>pause\<close> or \<^verbatim>\<open>reset\<close>, the
  interval firing (only while it is live: \<^verbatim>\<open>clearInterval\<close> stops it), or a render.
\<close>

datatype event = Play int | Pause int | Reset | Tick int | Render int bool

fun step :: "timer_config \<Rightarrow> timer_state \<Rightarrow> event \<Rightarrow> timer_state" where
  "step cfg st (Play now) = play cfg now st"
| "step cfg st (Pause now) = fst (pause cfg now st)"
| "step cfg st Reset = reset st"
| "step cfg st (Tick now) = (if intervalLive st then intervalCallback now st else st)"
| "step cfg st (Render now newOnFinish) = rerender cfg now newOnFinish st"

definition run :: "timer_config \<Rightarrow> event list \<Rightarrow> timer_state \<Rightarrow> timer_state" where
  "run cfg evs st = foldl (step cfg) st evs"

text \<open>The digits shown, \<^verbatim>\<open>timeValues\<close>, and the same computation in utils/performance.ts.\<close>

record time_fields =
  tensOfMs :: int
  lastDigit :: int
  tens :: int
  minutes :: int
  hours :: int

record time_values = time_fields +
  minutestens :: int

definition timeValues :: "timer_config \<Rightarrow> timer_state \<Rightarrow> time_values" where
  "timeValues cfg st =
     (let snapshot = \<bar>initialTimeInMs cfg + elapsedInMs st * direction cfg\<bar>;
          countInSeconds = snapshot div 1000
      in \<lparr>tensOfMs = (snapshot div 10) mod 100,
          lastDigit = countInSeconds mod 10,
          tens = (countInSeconds div 10) mod 6,
          minutes = (if needHour cfg then (countInSeconds mod 3600) div 60
                     else countInSeconds div 60),
          hours = countInSeconds div 3600,
          minutestens = (if needHour cfg then (countInSeconds mod 3600) div 60
                         else countInSeconds div 60)\<rparr>)"

section \<open>utils/performance.ts\<close>

definition formatTimeWorklet :: "int \<Rightarrow> bool \<Rightarrow> time_fields" where
  "formatTimeWorklet timeInMs needHour' =
     (let countInSeconds = \<bar>timeInMs\<bar> div 1000
      in \<lparr>tensOfMs = (\<bar>timeInMs\<bar> div 10) mod 100,
          lastDigit = countInSeconds mod 10,
          tens = (countInSeconds div 10) mod 6,
          minutes = (if needHour' then (countInSeconds mod 3600) div 60
                     else countInSeconds div 60),
          hours = countInSeconds div 3600\<rparr>)"

section \<open>StopwatchTimer.tsx\<close>

text \<open>
  The animation configuration of the component. JavaScript numbers are modelled as
  reals (the products below are exact, not rounded to doubles), string-valued props as
  strings, so that a value outside the declared union is an input like any other.
\<close>

record spring_preset =
  damping :: real
  stiffness :: real
  mass :: real

definition DEFAULT_ANIMATION_DELAY :: real where
  "DEFAULT_ANIMATION_DELAY = 0"

definition DEFAULT_ANIMATION_DISTANCE :: real where
  "DEFAULT_ANIMATION_DISTANCE = 80"

definition DEFAULT_ANIMATION_DURATION :: real where
  "DEFAULT_ANIMATION_DURATION = 200"

definition ANIMATION_PRESETS :: "string \<Rightarrow> spring_preset option" where
  "ANIMATION_PRESETS =
     map_of [(''smooth'', \<lparr>damping = 20, stiffness = 200, mass = 0.8\<rparr>),
             (''bouncy'', \<lparr>damping = 8, stiffness = 100, mass = 1\<rparr>),
             (''quick'', \<lparr>damping = 15, stiffness = 300, mass = 0.6\<rparr>)]"

record stopwatch_props =
  animationDelay :: real
  animationDistance :: real
  animationDuration :: real
  animationPreset :: string
  useSpringAnimation :: bool
  performanceMode :: string
  enterAnimationType :: string

text \<open>The props of a component given none of them.\<close>

definition default_props :: stopwatch_props where
  "default_props =
     \<lparr>animationDelay = DEFAULT_ANIMATION_DELAY,
      animationDistance = DEFAULT_ANIMATION_DISTANCE,
      animationDuration = DEFAULT_ANIMATION_DURATION,
      animationPreset = ''smooth'',
      useSpringAnimation = False,
      performanceMode = ''balanced'',
      enterAnimationType = ''slide-in-up''\<rparr>"

text \<open>
  \<^verbatim>\<open>animationConfig\<close>: the base configuration, and the fields of the preset spread into
  it when \<^verbatim>\<open>useSpringAnimation\<close> is set (\<open>spring\<close> is \<open>None\<close> when the object has no
  \<^verbatim>\<open>damping\<close>, \<^verbatim>\<open>stiffness\<close> and \<^verbatim>\<open>mass\<close>).
\<close>

record animation_config =
  duration :: real
  delay :: real
  distance :: real
  spring :: "spring_preset option"
  config_useSpringAnimation :: bool

definition validPresets :: "string list" where
  "validPresets = [''smooth'', ''bouncy'', ''quick'']"

definition selectedPreset :: "stopwatch_props \<Rightarrow> string" where
  "selectedPreset props =
     (if animationPreset props \<in> set validPresets then animationPreset props else ''smooth'')"

definition animationConfig :: "stopwatch_props \<Rightarrow> animation_config" where
  "animationConfig props =
     (let preset = ANIMATION_PRESETS (selectedPreset props);
          base_duration = (if performanceMode props = ''performance''
                           then animationDuration props * 0.7 else animationDuration props);
          base_delay = (if performanceMode props = ''performance''
                        then animationDelay props * 0.5 else animationDelay props)
      in if useSpringAnimation props
         then \<lparr>duration = base_duration, delay = base_delay,
               distance = animationDistance props, spring = preset,
               config_useSpringAnimation = True\<rparr>
         else \<lparr>duration = base_duration, delay = base_delay,
               distance = animationDistance props, spring = None,
               config_useSpringAnimation = False\<rparr>)"

text \<open>
  The layout animations handed to the animation library, as terms: \<^verbatim>\<open>withDelay(d, a)\<close>,
  \<^verbatim>\<open>withSpring(target, {damping, stiffness, mass})\<close>, \<^verbatim>\<open>withTiming(target, {duration})\<close>.
\<close>

datatype animation =
    WithDelay real animation
  | WithSpring real spring_preset
  | WithTiming real real

datatype digit_type = Seconds | TensOfSeconds | Minutes | Hours

record layout_animation =
  initial_originY :: "real option"
  animation_originY :: "animation option"

text \<open>\<^verbatim>\<open>useSharedValue({ seconds: false, tensOfSeconds: false, minutes: false, hours: false })\<close>\<close>

definition digitMountStates_initial :: "digit_type \<Rightarrow> bool" where
  "digitMountStates_initial = (\<lambda>digitType. False)"

definition originY_animation :: "stopwatch_props \<Rightarrow> real \<Rightarrow> animation" where
  "originY_animation props target =
     (let cfg = animationConfig props
      in case (if useSpringAnimation props then spring cfg else None) of
           Some preset \<Rightarrow>
             WithDelay (delay cfg)
               (WithSpring target
                  \<lparr>damping = damping preset, stiffness = stiffness preset, mass = mass preset\<rparr>)
         | None \<Rightarrow> WithDelay (delay cfg) (WithTiming target (duration cfg)))"

text \<open>
  \<^verbatim>\<open>createEntering(digitType)(values)\<close> with the mount flags \<^verbatim>\<open>digitMountStates\<close> passed
  in and returned; \<open>targetOriginY\<close> is \<^verbatim>\<open>values.targetOriginY\<close>.
\<close>

definition createEntering ::
  "stopwatch_props \<Rightarrow> digit_type \<Rightarrow> real \<Rightarrow> (digit_type \<Rightarrow> bool)
     \<Rightarrow> (digit_type \<Rightarrow> bool) \<times> layout_animation" where
  "createEntering props digitType targetOriginY digitMountStates =
     (if \<not> digitMountStates digitType
      then (digitMountStates(digitType := True),
            \<lparr>initial_originY = None, animation_originY = None\<rparr>)
      else (let enterDirection = (if enterAnimationType props = ''slide-in-up'' then - 1 else 1)
            in (digitMountStates,
                \<lparr>initial_originY =
                   Some (targetOriginY + distance (animationConfig props) * enterDirection),
                 animation_originY = Some (originY_animation props targetOriginY)\<rparr>)))"

text \<open>\<^verbatim>\<open>exiting(values)\<close>; \<open>currentOriginY\<close> is \<^verbatim>\<open>values.currentOriginY\<close>.\<close>

definition exiting :: "stopwatch_props \<Rightarrow> real \<Rightarrow> layout_animation" where
  "exiting props currentOriginY =
     (let exitDirection = (if enterAnimationType props = ''slide-in-up'' then 1 else - 1)
      in \<lparr>initial_originY = Some currentOriginY,
          animation_originY =
            Some (originY_animation props
                    (currentOriginY + distance (animationConfig props) * exitDirection))\<rparr>)"

section \<open>Runs used as examples\<close>

text \<open>
  \<open>sampling intervalMs start n\<close>: the interval set at time \<open>start\<close> fires \<open>n\<close> times,
  every \<open>intervalMs\<close> milliseconds, and React commits the queued state after each firing.
\<close>

definition sampling :: "int \<Rightarrow> int \<Rightarrow> nat \<Rightarrow> event list" where
  "sampling intervalMs start n =
     concat (map (\<lambda>k. [Tick (start + intervalMs * int k),
                        Render (start + intervalMs * int k) False])
               [1..<Suc n])"

text \<open>A stopwatch given no props at all, and one given a function \<^verbatim>\<open>onFinish\<close>.\<close>

definition stopwatch_default :: timer_config where
  "stopwatch_default =
     useTimer_config
       \<lparr>prop_initialTimeInMs = None, prop_onFinish = None, prop_mode = None,
        prop_needHour = False\<rparr>"

definition stopwatch_onFinish :: timer_config where
  "stopwatch_onFinish =
     useTimer_config
       \<lparr>prop_initialTimeInMs = None, prop_onFinish = Some (), prop_mode = None,
        prop_needHour = False\<rparr>"

text \<open>A timer of 5000 ms given a function \<^verbatim>\<open>onFinish\<close>.\<close>

definition timer_5000 :: timer_config where
  "timer_5000 =
     useTimer_config
       \<lparr>prop_initialTimeInMs = Some 5000, prop_onFinish = Some (), prop_mode = Some Timer,
        prop_needHour = False\<rparr>"

text \<open>A timer given no \<^verbatim>\<open>initialTimeInMs\<close>.\<close>

definition timer_default :: "bool \<Rightarrow> unit option \<Rightarrow> timer_config" where
  "timer_default nh f =
     useTimer_config
       \<lparr>prop_initialTimeInMs = None, prop_onFinish = f, prop_mode = Some Timer,
        prop_needHour = nh\<rparr>"

text \<open>
  A stopwatch mounted and started at time 1000000 and sampled every 16 ms for one
  second (the last firing is at 1000992); then paused at 1001000, resumed at 1003000 and
  sampled for another half second (the last firing is at 1003496).
\<close>

definition first_run :: "event list" where
  "first_run = Play 1000000 # sampling 16 1000000 62"

definition second_run :: "event list" where
  "second_run = first_run @ [Pause 1001000, Play 1003000] @ sampling 16 1003000 31"

text \<open>
  A timer of 5000 ms mounted and started at time 1000000 and sampled every 16 ms: after
  312 firings the elapsed time is 4992, the next firing is at 1005008.
\<close>

definition countdown_run :: "event list" where
  "countdown_run = Play 1000000 # sampling 16 1000000 312"

definition countdown_state :: timer_state where
  "countdown_state = run timer_5000 countdown_run (mount timer_5000 1000000)"

text \<open>The stopwatch given \<^verbatim>\<open>onFinish\<close> after its first second, still running.\<close>

definition stopwatch_state :: timer_state where
  "stopwatch_state = run stopwatch_onFinish first_run (mount stopwatch_onFinish 1000000)"

text \<open>
  A timer that has finished: the elapsed time is the initial time, no interval is set
  or live, and nothing else is queued for the next render.
\<close>

definition finished :: "timer_config \<Rightarrow> timer_state \<Rightarrow> bool" where
  "finished cfg st =
     (elapsedInMs st = initialTimeInMs cfg \<and> intervalId st = None \<and> intervalLive st = False \<and>
      (queuedElapsedInMs st = None \<or> queuedElapsedInMs st = Some (initialTimeInMs cfg)))"

section \<open>Time decomposition\<close>

lemma seconds_mod_60: "(s::int) mod 60 = 10 * (s div 10 mod 6) + s mod 10"
  using zmod_zmult2_eq [of 6 s 10] by simp

lemma seconds_mod_3600: "(s::int) mod 3600 = 60 * (s div 60 mod 60) + s mod 60"
  using zmod_zmult2_eq [of 60 s 60] by simp

lemma minutes_of_hour: "((s::int) mod 3600) div 60 = s div 60 mod 60"
proof -
  have "(60 * (s div 60 mod 60) + s mod 60) div 60 = s div 60 mod 60"
    by simp
  then show ?thesis
    by (simp only: seconds_mod_3600)
qed

lemma seconds_split:
  "((s::int) div 3600) * 3600 + (s div 60 mod 60) * 60 + ((s div 10) mod 6) * 10 + s mod 10 = s"
proof -
  have a: "s = 3600 * (s div 3600) + s mod 3600"
    by simp
  have b: "s mod 3600 = 60 * (s div 60 mod 60) + (10 * (s div 10 mod 6) + s mod 10)"
    by (simp only: seconds_mod_3600 seconds_mod_60)
  from a b show ?thesis
    by linarith
qed

lemma minutes_rolled:
  "(if nh then (s::int) mod 3600 div 60 else s div 60 mod 60) = s div 60 mod 60"
proof (cases nh)
  case True
  then show ?thesis
    by (simp only: if_True minutes_of_hour)
next
  case False
  then show ?thesis
    by (simp only: if_False)
qed

lemma formatTimeWorklet_sum:
  "hours (formatTimeWorklet t nh) * 3600
   + (if nh then minutes (formatTimeWorklet t nh) else minutes (formatTimeWorklet t nh) mod 60) * 60
   + tens (formatTimeWorklet t nh) * 10 + lastDigit (formatTimeWorklet t nh) = \<bar>t\<bar> div 1000"
proof -
  define s where "s = \<bar>t\<bar> div 1000"
  define f where "f = formatTimeWorklet t nh"
  have h: "hours f = s div 3600"
    and t: "tens f = s div 10 mod 6"
    and l: "lastDigit f = s mod 10"
    and m: "minutes f = (if nh then s mod 3600 div 60 else s div 60)"
    unfolding f_def s_def formatTimeWorklet_def Let_def by simp_all
  have m': "(if nh then minutes f else minutes f mod 60) = s div 60 mod 60"
    unfolding m using minutes_rolled [of nh s] by (cases nh) simp_all
  have "hours f * 3600 + (if nh then minutes f else minutes f mod 60) * 60 + tens f * 10
        + lastDigit f = s"
    unfolding m' h t l by (rule seconds_split)
  then show ?thesis
    unfolding f_def s_def .
qed

lemma timeValues_sum:
  "hours (timeValues cfg st) * 3600
   + (if needHour cfg then minutes (timeValues cfg st) else minutes (timeValues cfg st) mod 60) * 60
   + tens (timeValues cfg st) * 10 + lastDigit (timeValues cfg st) = getSnapshot cfg st div 1000"
proof -
  define s where "s = getSnapshot cfg st div 1000"
  define f where "f = timeValues cfg st"
  have h: "hours f = s div 3600"
    and t: "tens f = s div 10 mod 6"
    and l: "lastDigit f = s mod 10"
    and m: "minutes f = (if needHour cfg then s mod 3600 div 60 else s div 60)"
    unfolding f_def s_def timeValues_def getSnapshot_def Let_def by simp_all
  have m': "(if needHour cfg then minutes f else minutes f mod 60) = s div 60 mod 60"
    unfolding m using minutes_rolled [of "needHour cfg" s] by (cases "needHour cfg") simp_all
  have "hours f * 3600 + (if needHour cfg then minutes f else minutes f mod 60) * 60 + tens f * 10
        + lastDigit f = s"
    unfolding m' h t l by (rule seconds_split)
  then show ?thesis
    unfolding f_def s_def .
qed

text \<open>
  Claim C6. For every non-negative \<open>elapsedMs\<close> and every \<open>needHour\<close> flag, the fields of
  the decomposition add up to the whole seconds:
  \<open>hours * 3600 + minutes' * 60 + tens * 10 + lastDigit = elapsedMs div 1000\<close>, where
  \<open>minutes'\<close> is the minutes field, taken modulo 60 when \<open>needHour\<close> is false (the field
  is then the full \<open>countInSeconds div 60\<close>). This holds of \<^verbatim>\<open>formatTimeWorklet\<close> and of the
  \<^verbatim>\<open>timeValues\<close> of the hook, whose input is the snapshot.
\<close>

theorem decompose_sum:
  assumes "0 \<le> elapsedMs"
  shows "(let f = formatTimeWorklet elapsedMs nh;
              minutes' = (if nh then minutes f else minutes f mod 60)
          in hours f * 3600 + minutes' * 60 + tens f * 10 + lastDigit f = elapsedMs div 1000)
       \<and> (let v = timeValues cfg st;
               minutes' = (if needHour cfg then minutes v else minutes v mod 60)
           in hours v * 3600 + minutes' * 60 + tens v * 10 + lastDigit v
              = getSnapshot cfg st div 1000)"
proof -
  have "\<bar>elapsedMs\<bar> = elapsedMs"
    using assms by simp
  with formatTimeWorklet_sum [of elapsedMs nh] timeValues_sum [of cfg st] show ?thesis
    unfolding Let_def by (simp only:)
qed

theorem decompose_sum_witness:
  "(0::int) \<le> 65432
   \<and> (let f = formatTimeWorklet 65432 False;
           minutes' = (if False then minutes f else minutes f mod 60)
       in hours f * 3600 + minutes' * 60 + tens f * 10 + lastDigit f = 65432 div 1000)
   \<and> formatTimeWorklet 65432 False
       = \<lparr>tensOfMs = 43, lastDigit = 5, tens = 0, minutes = 1, hours = 0\<rparr>"
proof -
  have h: "(0::int) \<le> 65432"
    by simp
  have v: "formatTimeWorklet 65432 False
           = \<lparr>tensOfMs = 43, lastDigit = 5, tens = 0, minutes = 1, hours = 0\<rparr>"
    by (simp add: formatTimeWorklet_def)
  from decompose_sum [OF h, of False stopwatch_default initial_state] h v show ?thesis
    by blast
qed

section \<open>The throttled completion callback\<close>

lemma throttledOnFinish_fires:
  "previous v + 100 \<le> now \<Longrightarrow>
   throttledOnFinish now v = v\<lparr>timeout := None, previous := now, invoked := invoked v @ [()]\<rparr>"
  by (simp add: throttledOnFinish_def throttled_def onFinish_wait_def onFinish_options_def
      leading_of_def trailing_of_def Let_def)

lemma throttledOnFinish_drops:
  "previous v \<le> now \<Longrightarrow> now < previous v + 100 \<Longrightarrow> throttledOnFinish now v = v"
  by (simp add: throttledOnFinish_def throttled_def onFinish_wait_def onFinish_options_def
      leading_of_def trailing_of_def Let_def)

lemma throttledOnFinish_timeout:
  "timeout v = None \<Longrightarrow> timeout (throttledOnFinish now v) = None"
  by (simp add: throttledOnFinish_def throttled_def onFinish_wait_def onFinish_options_def
      leading_of_def trailing_of_def Let_def)

text \<open>
  Claim C3, as the spec states it: \<^verbatim>\<open>onFinish\<close> is wrapped with a 100 ms window, leading
  invocation disabled and trailing invocation disabled. The options the hook passes are
  \<^verbatim>\<open>{ trailing: false }\<close> only, so \<^verbatim>\<open>leading\<close> takes its default \<^verbatim>\<open>true\<close>: the statement
  "leading is disabled and trailing is disabled" is false of the wrapper.
\<close>

theorem onFinish_leading_counterexample:
  "\<not> (leading_of onFinish_options = False \<and> trailing_of onFinish_options = False)"
  by (simp add: leading_of_def onFinish_options_def)

text \<open>
  Claim C3, amended. The wrapper has a 100 ms window, leading invocation enabled and
  trailing invocation disabled. A call at least 100 ms after the last invocation (or the
  first call, \<^verbatim>\<open>previous\<close> being 0 then) invokes \<^verbatim>\<open>onFinish\<close> at once; a call less than
  100 ms after the last invocation changes nothing; and no call ever arms a timer, so
  there is no deferred invocation.
\<close>

theorem onFinish_throttle:
  assumes "previous v + 100 \<le> now" and "now \<le> now'" and "now' < now + 100"
    and "timeout v = None"
  shows "onFinish_wait = 100 \<and> leading_of onFinish_options = True
       \<and> trailing_of onFinish_options = False
       \<and> invoked (throttledOnFinish now v) = invoked v @ [()]
       \<and> previous (throttledOnFinish now v) = now
       \<and> throttledOnFinish now' (throttledOnFinish now v) = throttledOnFinish now v
       \<and> timeout (throttledOnFinish now v) = None
       \<and> timeout (throttledOnFinish now'' v) = None"
proof -
  have f: "throttledOnFinish now v
           = v\<lparr>timeout := None, previous := now, invoked := invoked v @ [()]\<rparr>"
    using assms(1) by (rule throttledOnFinish_fires)
  have d: "throttledOnFinish now' (throttledOnFinish now v) = throttledOnFinish now v"
    using assms(2,3) by (intro throttledOnFinish_drops) (simp_all add: f)
  have t: "timeout (throttledOnFinish now'' v) = None"
    using assms(4) by (rule throttledOnFinish_timeout)
  have o: "onFinish_wait = 100 \<and> leading_of onFinish_options = True
           \<and> trailing_of onFinish_options = False"
    by (simp add: onFinish_wait_def onFinish_options_def leading_of_def trailing_of_def)
  from o d t show ?thesis
    by (simp add: f)
qed

theorem onFinish_throttle_witness:
  "previous (throttle :: unit throttle_vars) + 100 \<le> 1005008
   \<and> (1005008::int) \<le> 1005010 \<and> (1005010::int) < 1005008 + 100
   \<and> timeout (throttle :: unit throttle_vars) = None
   \<and> invoked (throttledOnFinish 1005008 throttle) = [()]
   \<and> throttledOnFinish 1005010 (throttledOnFinish 1005008 throttle)
       = throttledOnFinish 1005008 throttle
   \<and> timeout (throttledOnFinish 1005008 throttle) = None"
proof -
  have h1: "previous (throttle :: unit throttle_vars) + 100 \<le> 1005008"
    by (simp add: throttle_def)
  have h2: "(1005008::int) \<le> 1005010"
    by simp
  have h3: "(1005010::int) < 1005008 + 100"
    by simp
  have h4: "timeout (throttle :: unit throttle_vars) = None"
    by (simp add: throttle_def)
  have e: "invoked (throttle :: unit throttle_vars) = []"
    by (simp add: throttle_def)
  from onFinish_throttle [OF h1 h2 h3 h4] h1 h2 h3 h4 e show ?thesis
    by simp
qed

section \<open>The trailing invocation of a throttled wrapper\<close>

text \<open>
  Claim C4. With trailing enabled, calls made before the window has elapsed schedule
  one deferred invocation at the end of the window, and the claim says that this
  invocation receives the arguments of the most recent call. In the code the timer's
  callback closes over the \<^verbatim>\<open>args\<close> of the call that armed it, and later calls in the
  window return without touching the timer. With \<^verbatim>\<open>throttle(f, 100)\<close> called with
  \<open>''a''\<close> at 1000000, \<open>''b''\<close> at 1000010 and \<open>''c''\<close> at 1000020: the first call invokes
  \<^verbatim>\<open>f\<close> at once, the second arms one timer due at 1000100 (the end of the window), the
  third changes nothing, and the timer invokes \<^verbatim>\<open>f\<close> with \<open>''b''\<close>, not with \<open>''c''\<close>.
\<close>

theorem throttle_trailing_args:
  "throttle_run 100 \<lparr>opt_leading = None, opt_trailing = None\<rparr>
     [Call 1000000 ''a'', Call 1000010 ''b''] throttle
   = \<lparr>timeout = Some (''b'', 1000100), previous = 1000000, invoked = [''a'']\<rparr>
   \<and> throttle_run 100 \<lparr>opt_leading = None, opt_trailing = None\<rparr>
     [Call 1000000 ''a'', Call 1000010 ''b'', Call 1000020 ''c''] throttle
   = \<lparr>timeout = Some (''b'', 1000100), previous = 1000000, invoked = [''a'']\<rparr>
   \<and> throttle_run 100 \<lparr>opt_leading = None, opt_trailing = None\<rparr>
     [Call 1000000 ''a'', Call 1000010 ''b'', Call 1000020 ''c'', Fire 1000100] throttle
   = \<lparr>timeout = None, previous = 1000100, invoked = [''a'', ''b'']\<rparr>"
  by (simp add: throttle_run_def throttled_def timeout_callback_def throttle_def
      leading_of_def trailing_of_def Let_def)

section \<open>Runs of the engine\<close>

lemma run_append: "run cfg (xs @ ys) st = run cfg ys (run cfg xs st)"
  by (simp add: run_def)

lemma run_Cons: "run cfg (e # es) st = run cfg es (step cfg st e)"
  by (simp add: run_def)

lemma run_Nil: "run cfg [] st = st"
  by (simp add: run_def)

lemma removeInterval_unset: "intervalId st = None \<Longrightarrow> removeInterval st = st"
  by (simp add: removeInterval_def)

lemma removeInterval_set:
  "intervalId st \<noteq> None \<Longrightarrow> removeInterval st = st\<lparr>intervalLive := False, intervalId := None\<rparr>"
  by (simp add: removeInterval_def)

lemma removeInterval_fields:
  "intervalId (removeInterval st) = None"
  "elapsedInMs (removeInterval st) = elapsedInMs st"
  "queuedElapsedInMs (removeInterval st) = queuedElapsedInMs st"
  "startTime (removeInterval st) = startTime st"
  "pausedTime (removeInterval st) = pausedTime st"
  "onFinishVars (removeInterval st) = onFinishVars st"
  by (cases "intervalId st"; simp add: removeInterval_def)+

lemma timer_5000_simps: "mode timer_5000 = Timer" "initialTimeInMs timer_5000 = 5000"
  by (simp_all add: timer_5000_def useTimer_config_def)

lemma timer_default_simps:
  "mode (timer_default nh f) = Timer" "initialTimeInMs (timer_default nh f) = 0"
  by (simp_all add: timer_default_def useTimer_config_def)

text \<open>
  Once a timer has finished, only \<^verbatim>\<open>reset\<close> changes its elapsed time: \<^verbatim>\<open>play\<close> returns
  early, the interval is gone, \<^verbatim>\<open>pause\<close> changes \<^verbatim>\<open>pausedTime\<close> at most, and a render
  leaves the elapsed time where it is, whether it runs the finish effect again or not.
\<close>

lemma finishEffect_finished:
  assumes "mode cfg = Timer" "elapsedInMs st = initialTimeInMs cfg" "intervalId st = None"
    "intervalLive st = False"
  shows "finished cfg (finishEffect cfg now st)"
  using assms
  by (simp add: finishEffect_def removeInterval_unset setElapsedInMs_def finished_def Let_def)

lemma cleanupEffect_fields:
  "elapsedInMs (cleanupEffect st) = elapsedInMs st"
  "queuedElapsedInMs (cleanupEffect st) = queuedElapsedInMs st"
  "intervalId (cleanupEffect st) = intervalId st"
  "startTime (cleanupEffect st) = startTime st"
  "pausedTime (cleanupEffect st) = pausedTime st"
  "intervalId st = None \<Longrightarrow> intervalLive (cleanupEffect st) = intervalLive st"
  "intervalId st \<noteq> None \<Longrightarrow> intervalLive (cleanupEffect st) = False"
  by (simp_all add: cleanupEffect_def Let_def)

lemma rerender_skip:
  "committed st = elapsedInMs st \<Longrightarrow> \<not> f \<Longrightarrow> rerender cfg now f st = st\<lparr>queuedElapsedInMs := None\<rparr>"
  by (simp add: rerender_def)

lemma rerender_render:
  "committed st \<noteq> elapsedInMs st \<or> f \<Longrightarrow>
   rerender cfg now f st
   = finishEffect cfg now
       (if f \<or> onFinish cfg = None
        then cleanupEffect (st\<lparr>elapsedInMs := committed st, queuedElapsedInMs := None\<rparr>)
        else st\<lparr>elapsedInMs := committed st, queuedElapsedInMs := None\<rparr>)"
  by (auto simp: rerender_def Let_def)

lemma finished_committed: "finished cfg st \<Longrightarrow> committed st = initialTimeInMs cfg"
  by (auto simp: finished_def committed_def)

lemma finished_rerender:
  assumes "mode cfg = Timer" "finished cfg st"
  shows "finished cfg (rerender cfg now f st)"
proof (cases f)
  case False
  have "committed st = elapsedInMs st"
    using assms(2) finished_committed [OF assms(2)] by (simp add: finished_def)
  from rerender_skip [OF this] False assms(2) show ?thesis
    by (simp add: finished_def)
next
  case True
  let ?st1 = "st\<lparr>elapsedInMs := committed st, queuedElapsedInMs := None\<rparr>"
  let ?st2 = "if f \<or> onFinish cfg = None then cleanupEffect ?st1 else ?st1"
  have e: "elapsedInMs ?st2 = initialTimeInMs cfg" "intervalId ?st2 = None"
    "intervalLive ?st2 = False"
    using assms(2) finished_committed [OF assms(2)]
    by (simp_all add: finished_def cleanupEffect_fields)
  have "rerender cfg now f st = finishEffect cfg now ?st2"
    using True by (intro rerender_render) simp
  with finishEffect_finished [OF assms(1) e] show ?thesis
    by simp
qed

lemma finished_step:
  assumes "mode cfg = Timer" "finished cfg st" "ev \<noteq> Reset"
  shows "finished cfg (step cfg st ev)"
proof (cases ev)
  case (Play now)
  with assms show ?thesis
    by (simp add: finished_def play_def)
next
  case (Pause now)
  with assms show ?thesis
    by (simp add: finished_def pause_def removeInterval_unset Let_def)
next
  case Reset
  with assms show ?thesis
    by simp
next
  case (Tick now)
  with assms show ?thesis
    by (simp add: finished_def)
next
  case (Render now f)
  with finished_rerender [OF assms(1,2)] show ?thesis
    by simp
qed

lemma finished_run:
  assumes "mode cfg = Timer" "Reset \<notin> set evs" "finished cfg st"
  shows "finished cfg (run cfg evs st)"
  using assms(2,3)
proof (induction evs arbitrary: st)
  case Nil
  then show ?case
    by (simp add: run_Nil)
next
  case (Cons e es)
  from Cons.prems have e: "e \<noteq> Reset" and es: "Reset \<notin> set es"
    by auto
  from Cons.IH [OF es finished_step [OF assms(1) Cons.prems(2) e]] show ?case
    by (simp add: run_Cons)
qed

text \<open>
  The finish transition: the interval fires at \<open>now0\<close> with the initial time reached or
  passed, the component renders at \<open>now1\<close> and the finish effect runs, and the clamp it
  queues is rendered at \<open>now2\<close>.
\<close>

lemma finish_transition:
  assumes "mode cfg = Timer" and "100 \<le> initialTimeInMs cfg"
    and "intervalLive st" and "intervalId st \<noteq> None" and "falsy (pausedTime st)"
    and "initialTimeInMs cfg \<le> now0 - to_number (startTime st)"
    and "elapsedInMs st < initialTimeInMs cfg"
    and "0 \<le> to_number (startTime st)"
    and "previous (onFinishVars st) \<le> to_number (startTime st)"
    and "now0 \<le> now1"
  shows "intervalId (run cfg [Tick now0, Render now1 f1] st) = None"
    and "intervalLive (run cfg [Tick now0, Render now1 f1] st) = False"
    and "invoked (onFinishVars (run cfg [Tick now0, Render now1 f1] st))
         = invoked (onFinishVars st) @ [()]"
    and "finished cfg (run cfg [Tick now0, Render now1 f1, Render now2 f2] st)"
proof -
  define v where "v = now0 - to_number (startTime st)"
  define st1 where "st1 = st\<lparr>elapsedInMs := v, queuedElapsedInMs := None\<rparr>"
  define st2 where "st2 = (if f1 \<or> onFinish cfg = None then cleanupEffect st1 else st1)"
  define st3 where "st3 = finishEffect cfg now1 st2"
  have vge: "initialTimeInMs cfg \<le> v" and vne: "v \<noteq> elapsedInMs st"
    using assms(6,7) by (simp_all add: v_def)
  define st0 where "st0 = st\<lparr>queuedElapsedInMs := Some v\<rparr>"
  have t: "step cfg st (Tick now0) = st0"
    using assms(3,5) by (simp add: intervalCallback_def setElapsedInMs_def v_def st0_def)
  have c0: "committed st0 = v" "elapsedInMs st0 = elapsedInMs st"
    by (simp_all add: st0_def committed_def)
  have "rerender cfg now1 f1 st0 = st3"
    using rerender_render [of st0 f1 cfg now1] vne c0
    by (simp add: st3_def st2_def st1_def st0_def)
  then have r: "run cfg [Tick now0, Render now1 f1] st = st3"
    using t by (simp add: run_def del: step.simps(4))
  have p: "previous (onFinishVars st2) + 100 \<le> now1"
    using assms(2,6,8,9,10)
    by (simp add: st2_def st1_def cleanupEffect_def cancel_def throttle_def Let_def)
  have i2: "invoked (onFinishVars st2) = invoked (onFinishVars st)"
    by (simp add: st2_def st1_def cleanupEffect_def cancel_def throttle_def Let_def)
  have id2: "intervalId st2 \<noteq> None" "elapsedInMs st2 = v"
    using assms(4) by (simp_all add: st2_def st1_def cleanupEffect_fields)
  have s3: "st3 = st2\<lparr>intervalLive := False, intervalId := None,
                       queuedElapsedInMs := Some (initialTimeInMs cfg),
                       onFinishVars := (onFinishVars st2)\<lparr>timeout := None, previous := now1,
                          invoked := invoked (onFinishVars st2) @ [()]\<rparr>\<rparr>"
    using assms(1) vge id2 throttledOnFinish_fires [OF p]
    by (simp add: st3_def finishEffect_def removeInterval_set setElapsedInMs_def Let_def)
  show "intervalId (run cfg [Tick now0, Render now1 f1] st) = None"
    by (simp add: r s3)
  show "intervalLive (run cfg [Tick now0, Render now1 f1] st) = False"
    by (simp add: r s3)
  show "invoked (onFinishVars (run cfg [Tick now0, Render now1 f1] st))
         = invoked (onFinishVars st) @ [()]"
    by (simp add: r s3 i2)
  have q3: "queuedElapsedInMs st3 = Some (initialTimeInMs cfg)" "elapsedInMs st3 = v"
    "intervalId st3 = None" "intervalLive st3 = False"
    by (simp_all add: s3 id2)
  have c3: "committed st3 = initialTimeInMs cfg"
    by (simp add: committed_def q3)
  have "run cfg [Tick now0, Render now1 f1, Render now2 f2] st = run cfg [Render now2 f2] st3"
    using run_append [of cfg "[Tick now0, Render now1 f1]" "[Render now2 f2]" st]
    unfolding r by (simp only: append.simps)
  then have r3: "run cfg [Tick now0, Render now1 f1, Render now2 f2] st
                 = rerender cfg now2 f2 st3"
    by (simp add: run_def)
  have fin: "finished cfg (rerender cfg now2 f2 st3)"
  proof (cases "initialTimeInMs cfg \<noteq> v \<or> f2")
    case False
    then have "rerender cfg now2 f2 st3 = st3\<lparr>queuedElapsedInMs := None\<rparr>"
      by (intro rerender_skip) (simp_all add: c3 q3)
    moreover have "finished cfg (st3\<lparr>queuedElapsedInMs := None\<rparr>)"
      using False by (simp add: q3 finished_def)
    ultimately show ?thesis
      by simp
  next
    case True
    let ?a = "st3\<lparr>elapsedInMs := committed st3, queuedElapsedInMs := None\<rparr>"
    let ?b = "if f2 \<or> onFinish cfg = None then cleanupEffect ?a else ?a"
    have e: "elapsedInMs ?b = initialTimeInMs cfg" "intervalId ?b = None"
      "intervalLive ?b = False"
      by (simp_all add: q3 c3 cleanupEffect_fields)
    have "rerender cfg now2 f2 st3 = finishEffect cfg now2 ?b"
      using True by (intro rerender_render) (simp add: c3 q3)
    with finishEffect_finished [OF assms(1) e] show ?thesis
      by simp
  qed
  show "finished cfg (run cfg [Tick now0, Render now1 f1, Render now2 f2] st)"
    unfolding r3 by (rule fin)
qed

text \<open>
  Claim C1, as the spec states it: with \<^verbatim>\<open>initialTimeInMs = 5000\<close> in timer mode, after
  the elapsed time has reached or passed 5000 ms \<^verbatim>\<open>getSnapshot()\<close> returns exactly 5000.
  The snapshot is \<open>\<bar>initialTimeInMs - elapsedInMs\<bar>\<close> in timer mode, the time that
  remains: in the countdown sampled every 16 ms, once the firing at 1005008 and the
  clamp have been rendered, the snapshot is 0.
\<close>

theorem timer_snapshot_counterexample:
  "getSnapshot timer_5000
     (run timer_5000 [Tick 1005008, Render 1005008 False, Render 1005010 False] countdown_state)
   \<noteq> 5000"
  by code_simp

text \<open>
  Claim C1, amended. In timer mode with \<^verbatim>\<open>initialTimeInMs = 5000\<close>, when the interval
  fires with the initial time reached or passed, the render that follows runs the finish
  effect, which stops the sampling and invokes \<^verbatim>\<open>onFinish\<close>; once the clamp has been
  rendered the elapsed time is exactly 5000 and \<^verbatim>\<open>getSnapshot()\<close> returns 0, the time
  that remains; and whatever follows except \<^verbatim>\<open>reset\<close> (firings of an interval, \<^verbatim>\<open>play\<close>,
  \<^verbatim>\<open>pause\<close>, renders with the same or with a new \<^verbatim>\<open>onFinish\<close>) leaves the sampling
  stopped, the elapsed time at 5000 and the snapshot at 0. The clock is taken not to run
  backwards: the start reference is not negative, the last invocation of \<^verbatim>\<open>onFinish\<close>
  was not after it, and the render is not before the firing. How often later runs of the
  finish effect invoke \<^verbatim>\<open>onFinish\<close> is not part of the statement.
\<close>

theorem timer_finish:
  assumes "mode cfg = Timer" and "initialTimeInMs cfg = 5000"
    and "intervalLive st" and "intervalId st \<noteq> None" and "falsy (pausedTime st)"
    and "5000 \<le> tick - to_number (startTime st)"
    and "elapsedInMs st < 5000"
    and "0 \<le> to_number (startTime st)"
    and "previous (onFinishVars st) \<le> to_number (startTime st)"
    and "tick \<le> first"
    and "Reset \<notin> set evs"
  shows "intervalId (run cfg [Tick tick, Render first g] st) = None
       \<and> intervalLive (run cfg [Tick tick, Render first g] st) = False
       \<and> invoked (onFinishVars (run cfg [Tick tick, Render first g] st))
           = invoked (onFinishVars st) @ [()]
       \<and> intervalId (run cfg ([Tick tick, Render first g, Render second h] @ evs) st) = None
       \<and> intervalLive (run cfg ([Tick tick, Render first g, Render second h] @ evs) st) = False
       \<and> elapsedInMs (run cfg ([Tick tick, Render first g, Render second h] @ evs) st) = 5000
       \<and> getSnapshot cfg (run cfg ([Tick tick, Render first g, Render second h] @ evs) st) = 0"
proof -
  have c: "100 \<le> initialTimeInMs cfg" "initialTimeInMs cfg \<le> tick - to_number (startTime st)"
    "elapsedInMs st < initialTimeInMs cfg"
    using assms(2,6,7) by simp_all
  note ft = finish_transition [OF assms(1) c(1) assms(3,4,5) c(2,3) assms(8,9,10)]
  let ?st3 = "run cfg [Tick tick, Render first g, Render second h] st"
  have f: "finished cfg (run cfg evs ?st3)"
    using finished_run [OF assms(1,11) ft(4)] .
  have ra: "run cfg ([Tick tick, Render first g, Render second h] @ evs) st = run cfg evs ?st3"
    by (rule run_append)
  from f ft(1,2,3) show ?thesis
    unfolding ra by (simp add: finished_def getSnapshot_def direction_def assms(1,2))
qed

theorem timer_finish_witness:
  "mode timer_5000 = Timer \<and> initialTimeInMs timer_5000 = 5000
   \<and> intervalLive countdown_state \<and> intervalId countdown_state \<noteq> None
   \<and> falsy (pausedTime countdown_state)
   \<and> 5000 \<le> 1005008 - to_number (startTime countdown_state)
   \<and> elapsedInMs countdown_state < 5000
   \<and> 0 \<le> to_number (startTime countdown_state)
   \<and> previous (onFinishVars countdown_state) \<le> to_number (startTime countdown_state)
   \<and> (1005008::int) \<le> 1005008
   \<and> Reset \<notin> set [Tick 1005024, Render 1005024 False, Play 1006000, Pause 1007000,
                     Render 1007000 True]
   \<and> intervalLive (run timer_5000 [Tick 1005008, Render 1005008 False] countdown_state) = False
   \<and> invoked (onFinishVars
                (run timer_5000 [Tick 1005008, Render 1005008 False] countdown_state)) = [()]
   \<and> elapsedInMs
        (run timer_5000
           ([Tick 1005008, Render 1005008 False, Render 1005010 False]
            @ [Tick 1005024, Render 1005024 False, Play 1006000, Pause 1007000,
               Render 1007000 True])
           countdown_state) = 5000
   \<and> getSnapshot timer_5000
        (run timer_5000
           ([Tick 1005008, Render 1005008 False, Render 1005010 False]
            @ [Tick 1005024, Render 1005024 False, Play 1006000, Pause 1007000,
               Render 1007000 True])
           countdown_state) = 0"
proof -
  have h1: "mode timer_5000 = Timer" and h2: "initialTimeInMs timer_5000 = 5000"
    by (simp_all add: timer_5000_simps)
  have h3: "intervalLive countdown_state"
    by code_simp
  have h4: "intervalId countdown_state \<noteq> None"
    by code_simp
  have h5: "falsy (pausedTime countdown_state)"
    by code_simp
  have h6: "5000 \<le> 1005008 - to_number (startTime countdown_state)"
    by code_simp
  have h7: "elapsedInMs countdown_state < 5000"
    by code_simp
  have h8: "0 \<le> to_number (startTime countdown_state)"
    by code_simp
  have h9: "previous (onFinishVars countdown_state) \<le> to_number (startTime countdown_state)"
    by code_simp
  have h10: "(1005008::int) \<le> 1005008"
    by simp
  have h11: "Reset \<notin> set [Tick 1005024, Render 1005024 False, Play 1006000, Pause 1007000,
                           Render 1007000 True]"
    by simp
  have e: "invoked (onFinishVars countdown_state) = []"
    by code_simp
  from timer_finish
         [where g = False and h = False and second = 1005010,
          OF h1 h2 h3 h4 h5 h6 h7 h8 h9 h10 h11]
    h1 h2 h3 h4 h5 h6 h7 h8 h9 h10 h11 e
  show ?thesis
    by (simp only: append_Nil simp_thms)
qed

section \<open>Reset\<close>

lemma reset_fields:
  "queuedElapsedInMs (reset st) = Some 0" "elapsedInMs (reset st) = elapsedInMs st"
  "intervalId (reset st) = None" "startTime (reset st) = None" "pausedTime (reset st) = None"
  by (simp_all add: reset_def resetState_def setElapsedInMs_def removeInterval_fields)

lemma finishEffect_fields:
  "elapsedInMs (finishEffect cfg now st) = elapsedInMs st"
  "startTime (finishEffect cfg now st) = startTime st"
  "pausedTime (finishEffect cfg now st) = pausedTime st"
  "intervalId st = None \<Longrightarrow> intervalId (finishEffect cfg now st) = None"
  by (simp_all add: finishEffect_def removeInterval_fields setElapsedInMs_def Let_def)

text \<open>
  Claim C2, as the spec states it: for every mode and every \<^verbatim>\<open>initialTimeInMs\<close>,
  \<^verbatim>\<open>reset()\<close> followed by \<^verbatim>\<open>getSnapshot()\<close> returns 0. On a timer of 5000 ms that has
  just been mounted, the snapshot after \<^verbatim>\<open>reset()\<close> is 5000, both at once and after the
  render that follows.
\<close>

theorem reset_snapshot_counterexample:
  "getSnapshot timer_5000 (reset (mount timer_5000 1000000)) \<noteq> 0
   \<and> getSnapshot timer_5000
        (rerender timer_5000 1000001 False (reset (mount timer_5000 1000000))) \<noteq> 0"
  by code_simp

text \<open>
  Claim C2, amended. For every mode and every \<^verbatim>\<open>initialTimeInMs\<close>, after \<^verbatim>\<open>reset()\<close> and
  the render that follows it no interval is set, the time references are cleared, the
  elapsed time is 0 and \<^verbatim>\<open>getSnapshot()\<close> returns \<open>\<bar>initialTimeInMs\<bar>\<close>; that is 0 when
  \<^verbatim>\<open>initialTimeInMs\<close> is 0.
\<close>

theorem reset_snapshot:
  "elapsedInMs (rerender cfg now newOnFinish (reset st)) = 0
   \<and> getSnapshot cfg (rerender cfg now newOnFinish (reset st)) = \<bar>initialTimeInMs cfg\<bar>
   \<and> intervalId (rerender cfg now newOnFinish (reset st)) = None
   \<and> startTime (rerender cfg now newOnFinish (reset st)) = None
   \<and> pausedTime (rerender cfg now newOnFinish (reset st)) = None"
proof -
  have c: "committed (reset st) = 0"
    by (simp add: committed_def reset_fields)
  show ?thesis
  proof (cases "committed (reset st) \<noteq> elapsedInMs (reset st) \<or> newOnFinish")
    case False
    then have "rerender cfg now newOnFinish (reset st) = (reset st)\<lparr>queuedElapsedInMs := None\<rparr>"
      by (intro rerender_skip) simp_all
    with False c show ?thesis
      by (simp add: reset_fields getSnapshot_def)
  next
    case True
    from rerender_render [OF True] c show ?thesis
      by (simp add: finishEffect_fields cleanupEffect_fields reset_fields getSnapshot_def)
  qed
qed

section \<open>Pause and resume\<close>

text \<open>
  With no \<^verbatim>\<open>onFinish\<close> passed, the render after the first sample builds a new wrapper,
  and the cleanup that comes with it clears the interval: the stopwatch started at
  1000000, paused at 1001000, resumed at 1003000 and paused at 1003500 returns 16 and
  1016. The runs sampled over a time below are those of an engine given a function
  \<^verbatim>\<open>onFinish\<close>.
\<close>

lemma default_onFinish_scenario:
  "snd (pause stopwatch_default 1001000
          (run stopwatch_default first_run (mount stopwatch_default 1000000))) = 16
   \<and> snd (pause stopwatch_default 1003500
            (run stopwatch_default second_run (mount stopwatch_default 1000000))) = 1016"
  by code_simp





section \<open>Idempotence of pause and play\<close>

text \<open>
  Claim C7. Calling \<^verbatim>\<open>pause()\<close> twice in a row, with nothing in between, returns the
  same snapshot both times and leaves the state of the engine as the first call left
  it; calling \<^verbatim>\<open>play()\<close> on an engine that is running changes nothing. The state is
  unchanged by the second \<^verbatim>\<open>pause()\<close> whenever the clock read by the first is not 0
  (a pause time of 0 is taken for no pause time by \<^verbatim>\<open>!pausedTime.current\<close>).
\<close>

theorem pause_play_idempotent:
  assumes "now1 \<noteq> 0" and "intervalId st' \<noteq> None"
  shows "snd (pause cfg now2 (fst (pause cfg now1 st))) = snd (pause cfg now1 st)
       \<and> fst (pause cfg now2 (fst (pause cfg now1 st))) = fst (pause cfg now1 st)
       \<and> play cfg now st' = st'"
  using assms
  by (simp add: pause_def play_def removeInterval_def getSnapshot_def falsy_def Let_def
      split: option.splits)

theorem pause_play_idempotent_witness:
  "(1001000::int) \<noteq> 0 \<and> intervalId stopwatch_state \<noteq> None
   \<and> snd (pause stopwatch_onFinish 1001000 stopwatch_state) = 992
   \<and> snd (pause stopwatch_onFinish 1001005
            (fst (pause stopwatch_onFinish 1001000 stopwatch_state))) = 992
   \<and> fst (pause stopwatch_onFinish 1001005
            (fst (pause stopwatch_onFinish 1001000 stopwatch_state)))
       = fst (pause stopwatch_onFinish 1001000 stopwatch_state)
   \<and> play stopwatch_onFinish 1001000 stopwatch_state = stopwatch_state"
proof -
  have h1: "(1001000::int) \<noteq> 0"
    by simp
  have h2: "intervalId stopwatch_state \<noteq> None"
    by code_simp
  have v: "snd (pause stopwatch_onFinish 1001000 stopwatch_state) = 992"
    by code_simp
  from pause_play_idempotent
         [OF h1 h2, of stopwatch_onFinish 1001005 stopwatch_state 1001000] h1 h2 v
  show ?thesis
    by (simp only: simp_thms)
qed

section \<open>A timer with the default initial time\<close>

lemma idle_step:
  assumes "mode cfg = Timer" "initialTimeInMs cfg = 0" "finished cfg st"
  shows "finished cfg (step cfg st ev)"
proof (cases "ev = Reset")
  case True
  with assms show ?thesis
    by (simp add: finished_def reset_def resetState_def removeInterval_unset setElapsedInMs_def)
next
  case False
  with finished_step [OF assms(1,3)] show ?thesis
    by simp
qed

lemma idle_run:
  assumes "mode cfg = Timer" "initialTimeInMs cfg = 0" "finished cfg st"
  shows "finished cfg (run cfg evs st)"
  using assms(3)
proof (induction evs arbitrary: st)
  case Nil
  then show ?case
    by (simp add: run_Nil)
next
  case (Cons e es)
  from Cons.IH [OF idle_step [OF assms(1,2) Cons.prems]] show ?case
    by (simp add: run_Cons)
qed

lemma mount_timer_default: "finished (timer_default nh f) (mount (timer_default nh f) t)"
  by (simp add: mount_def finishEffect_def reset_def resetState_def removeInterval_def
      setElapsedInMs_def initial_state_def finished_def timer_default_simps Let_def)

text \<open>
  Claim C9. In timer mode with \<^verbatim>\<open>initialTimeInMs\<close> left at its default 0, \<^verbatim>\<open>play()\<close> on
  the engine as mounted is a no-op (\<^verbatim>\<open>elapsedInMs === initialTimeInMs\<close> holds at once),
  and whatever is called afterwards, in whatever order, the interval is never set and
  \<^verbatim>\<open>getSnapshot()\<close> stays 0.
\<close>

theorem timer_default_never_starts:
  "play (timer_default nh f) now (mount (timer_default nh f) t) = mount (timer_default nh f) t
   \<and> intervalId (run (timer_default nh f) evs (mount (timer_default nh f) t)) = None
   \<and> intervalLive (run (timer_default nh f) evs (mount (timer_default nh f) t)) = False
   \<and> elapsedInMs (run (timer_default nh f) evs (mount (timer_default nh f) t)) = 0
   \<and> getSnapshot (timer_default nh f)
        (run (timer_default nh f) evs (mount (timer_default nh f) t)) = 0"
proof -
  have m: "finished (timer_default nh f) (mount (timer_default nh f) t)"
    by (rule mount_timer_default)
  from idle_run [OF timer_default_simps m]
  have r: "finished (timer_default nh f)
             (run (timer_default nh f) evs (mount (timer_default nh f) t))" .
  from m have "play (timer_default nh f) now (mount (timer_default nh f) t)
               = mount (timer_default nh f) t"
    by (simp add: play_def finished_def timer_default_simps)
  with r show ?thesis
    by (simp add: finished_def getSnapshot_def timer_default_simps)
qed

section \<open>The animation configuration\<close>

text \<open>
  Claim C8. Whatever the configured \<^verbatim>\<open>animationDuration\<close> and \<^verbatim>\<open>animationDelay\<close>, with
  \<^verbatim>\<open>performanceMode = 'performance'\<close> the effective duration is \<open>animationDuration * 0.7\<close>
  and the effective delay is \<open>animationDelay * 0.5\<close>; with \<^verbatim>\<open>'balanced'\<close> and with
  \<^verbatim>\<open>'quality'\<close> they are the configured duration and delay.
\<close>

theorem performance_mode_scaling:
  "duration (animationConfig (props\<lparr>performanceMode := ''performance''\<rparr>))
     = animationDuration props * 0.7
   \<and> delay (animationConfig (props\<lparr>performanceMode := ''performance''\<rparr>))
     = animationDelay props * 0.5
   \<and> duration (animationConfig (props\<lparr>performanceMode := ''balanced''\<rparr>))
     = animationDuration props
   \<and> delay (animationConfig (props\<lparr>performanceMode := ''balanced''\<rparr>))
     = animationDelay props
   \<and> duration (animationConfig (props\<lparr>performanceMode := ''quality''\<rparr>))
     = animationDuration props
   \<and> delay (animationConfig (props\<lparr>performanceMode := ''quality''\<rparr>))
     = animationDelay props"
  by (simp add: animationConfig_def Let_def)

text \<open>
  Claim C10. For every \<^verbatim>\<open>animationPreset\<close> outside \<^verbatim>\<open>'smooth'\<close>, \<^verbatim>\<open>'bouncy'\<close> and \<^verbatim>\<open>'quick'\<close>
  (so also for \<^verbatim>\<open>'custom'\<close>, which the prop's type accepts), the spring parameters used
  for the digit animations are those of the \<^verbatim>\<open>'smooth'\<close> preset: damping 20, stiffness
  200, mass 0.8. Spring parameters are used when \<^verbatim>\<open>useSpringAnimation\<close> is set; they are
  those of the configuration, of the entering animation of a digit that has been
  mounted, and of the exiting animation.
\<close>

theorem preset_fallback_smooth:
  assumes "animationPreset props \<notin> {''smooth'', ''bouncy'', ''quick''}"
    and "useSpringAnimation props"
    and "digitMountStates digitType"
  shows "selectedPreset props = ''smooth''
       \<and> spring (animationConfig props) = Some \<lparr>damping = 20, stiffness = 200, mass = 0.8\<rparr>
       \<and> animation_originY (snd (createEntering props digitType y digitMountStates))
           = Some (WithDelay (delay (animationConfig props))
                     (WithSpring y \<lparr>damping = 20, stiffness = 200, mass = 0.8\<rparr>))
       \<and> animation_originY (exiting props y)
           = Some (WithDelay (delay (animationConfig props))
                     (WithSpring
                        (y + distance (animationConfig props)
                             * (if enterAnimationType props = ''slide-in-up'' then 1 else - 1))
                        \<lparr>damping = 20, stiffness = 200, mass = 0.8\<rparr>))"
proof -
  have p: "selectedPreset props = ''smooth''"
    using assms(1) by (simp add: selectedPreset_def validPresets_def)
  have s: "spring (animationConfig props)
           = Some \<lparr>damping = 20, stiffness = 200, mass = 0.8\<rparr>"
    using assms(2) by (simp add: animationConfig_def p ANIMATION_PRESETS_def Let_def)
  have a: "originY_animation props z
           = WithDelay (delay (animationConfig props))
               (WithSpring z \<lparr>damping = 20, stiffness = 200, mass = 0.8\<rparr>)" for z
    using assms(2) by (simp add: originY_animation_def s Let_def)
  from p s assms(3) show ?thesis
    by (simp add: createEntering_def exiting_def a Let_def)
qed

theorem preset_fallback_smooth_witness:
  "animationPreset (default_props\<lparr>animationPreset := ''custom'', useSpringAnimation := True\<rparr>)
     \<notin> {''smooth'', ''bouncy'', ''quick''}
   \<and> useSpringAnimation (default_props\<lparr>animationPreset := ''custom'', useSpringAnimation := True\<rparr>)
   \<and> fst (createEntering
             (default_props\<lparr>animationPreset := ''custom'', useSpringAnimation := True\<rparr>)
             Seconds 0 digitMountStates_initial) Seconds
   \<and> spring (animationConfig
               (default_props\<lparr>animationPreset := ''custom'', useSpringAnimation := True\<rparr>))
       = Some \<lparr>damping = 20, stiffness = 200, mass = 0.8\<rparr>
   \<and> animation_originY
        (snd (createEntering
                (default_props\<lparr>animationPreset := ''custom'', useSpringAnimation := True\<rparr>)
                Seconds 0
                (fst (createEntering
                        (default_props\<lparr>animationPreset := ''custom'',
                                         useSpringAnimation := True\<rparr>)
                        Seconds 0 digitMountStates_initial))))
       = Some (WithDelay 0 (WithSpring 0 \<lparr>damping = 20, stiffness = 200, mass = 0.8\<rparr>))
   \<and> animation_originY
        (exiting (default_props\<lparr>animationPreset := ''custom'', useSpringAnimation := True\<rparr>) 0)
       = Some (WithDelay 0 (WithSpring 80 \<lparr>damping = 20, stiffness = 200, mass = 0.8\<rparr>))"
proof -
  let ?p = "default_props\<lparr>animationPreset := ''custom'', useSpringAnimation := True\<rparr>"
  let ?m = "fst (createEntering ?p Seconds 0 digitMountStates_initial)"
  have h1: "animationPreset ?p \<notin> {''smooth'', ''bouncy'', ''quick''}"
    by simp
  have h2: "useSpringAnimation ?p"
    by simp
  have h3: "?m Seconds"
    by (simp add: createEntering_def digitMountStates_initial_def)
  have d: "delay (animationConfig ?p) = 0" "distance (animationConfig ?p) = 80"
    "enterAnimationType ?p = ''slide-in-up''"
    by (simp_all add: animationConfig_def default_props_def DEFAULT_ANIMATION_DELAY_def
        DEFAULT_ANIMATION_DISTANCE_def Let_def)
  from preset_fallback_smooth
         [where props = "?p" and digitMountStates = "?m" and digitType = Seconds and y = 0,
          OF h1 h2 h3]
    h1 h2 h3 d
  show ?thesis
    by simp
qed

end
